theory Spec2Isabelle
  imports Main
begin

section \<open>Raw records (rm\_rest\_api\_types.py)\<close>

text \<open>
  \<^verbatim>\<open>RMApiDocument\<close> as returned by the device. Only the fields that
  \<^verbatim>\<open>rest_api.py\<close> reads are kept; the other optional fields of the class are
  never inspected by the code modelled here. \<^verbatim>\<open>Type\<close> is kept as a string, since
  \<^verbatim>\<open>get_documents\<close> has a branch for values other than the two literals.
\<close>

record RMApiDocument =
  ID :: string
  Parent :: string
  Type :: string
  VissibleName :: string
  pageCount :: "int option"
  sizeInBytes :: "string option"

datatype error =
    AssertionError
  | ValueError
  | RecursionError
  | RuntimeError string

section \<open>Entities (rest\_api.py)\<close>

datatype Folder = Folder
  (Folder_id: string)
  (Folder_folder: "Folder option")
  (Folder_visible_name: string)
  (Folder_parent_id: "string option")
  (Folder_raw: RMApiDocument)

datatype Document = Document
  (Document_id: string)
  (Document_folder: "Folder option")
  (Document_visible_name: string)
  (Document_length: int)
  (Document_extension: string)
  (Document_page_count: int)
  (Document_parent_id: "string option")
  (Document_raw: RMApiDocument)

text \<open>\<^verbatim>\<open>Union[Document, Folder]\<close>, with the attributes both classes share.\<close>

datatype entity = Doc Document | Fld Folder

fun id_of :: "entity \<Rightarrow> string" where
  "id_of (Doc d) = Document_id d"
| "id_of (Fld f) = Folder_id f"

fun visible_name :: "entity \<Rightarrow> string" where
  "visible_name (Doc d) = Document_visible_name d"
| "visible_name (Fld f) = Folder_visible_name f"

fun parent_id :: "entity \<Rightarrow> string option" where
  "parent_id (Doc d) = Document_parent_id d"
| "parent_id (Fld f) = Folder_parent_id f"

fun folder :: "entity \<Rightarrow> Folder option" where
  "folder (Doc d) = Document_folder d"
| "folder (Fld f) = Folder_folder f"

fun raw_of :: "entity \<Rightarrow> RMApiDocument" where
  "raw_of (Doc d) = Document_raw d"
| "raw_of (Fld f) = Folder_raw f"

section \<open>Paths (pathlib, POSIX flavour)\<close>

text \<open>
  A pure POSIX path is its root (\<open>''''\<close>, \<open>''/''\<close> or \<open>''//''\<close>) and its list of
  names. The constructor \<^verbatim>\<open>Path(s)\<close> splits at \<open>/\<close> and drops empty and
  \<open>.\<close> components; \<^verbatim>\<open>Path(".")\<close> is the path with no root and no names.
\<close>

datatype Path = PosixPath (Path_root: string) (Path_names: "string list")

fun split_slash :: "string \<Rightarrow> string list" where
  "split_slash [] = [[]]"
| "split_slash (c # cs) =
     (if c = CHR ''/'' then [] # split_slash cs
      else (case split_slash cs of
              [] \<Rightarrow> [[c]]
            | w # ws \<Rightarrow> (c # w) # ws))"

definition startswith :: "string \<Rightarrow> string \<Rightarrow> bool" where
  "startswith s pre = (take (length pre) s = pre)"

definition endswith :: "string \<Rightarrow> string \<Rightarrow> bool" where
  "endswith s suf = (length suf \<le> length s \<and> drop (length s - length suf) s = suf)"

definition splitroot :: "string \<Rightarrow> string" where
  "splitroot s =
     (if startswith s ''/'' then
        (if startswith s ''//'' \<and> \<not> startswith s ''///'' then ''//'' else ''/'')
      else '''')"

definition Path :: "string \<Rightarrow> Path" where
  "Path s = PosixPath (splitroot s) (filter (\<lambda>x. x \<noteq> '''' \<and> x \<noteq> ''.'') (split_slash s))"

text \<open>\<^verbatim>\<open>p / s\<close> for a string \<open>s\<close>: an absolute \<open>s\<close> replaces \<open>p\<close>.\<close>

definition Path_div :: "Path \<Rightarrow> string \<Rightarrow> Path" where
  "Path_div p s =
     (let q = Path s in
      if Path_root q \<noteq> '''' then q
      else PosixPath (Path_root p) (Path_names p @ Path_names q))"

definition Path_parent :: "Path \<Rightarrow> Path" where
  "Path_parent p =
     (if Path_names p = [] then p else PosixPath (Path_root p) (butlast (Path_names p)))"

definition Path_name :: "Path \<Rightarrow> string" where
  "Path_name p = (if Path_names p = [] then '''' else last (Path_names p))"

fun join_slash :: "string list \<Rightarrow> string" where
  "join_slash [] = ''''"
| "join_slash [x] = x"
| "join_slash (x # y # ys) = x @ ''/'' @ join_slash (y # ys)"

definition Path_str :: "Path \<Rightarrow> string" where
  "Path_str p =
     (if Path_root p = '''' \<and> Path_names p = [] then ''.''
      else Path_root p @ join_slash (Path_names p))"

subsection \<open>The \<^verbatim>\<open>filename\<close> properties\<close>

fun Folder_filename :: "Folder \<Rightarrow> Path" where
  "Folder_filename (Folder i fo vn pid r) =
     (case fo of
        None \<Rightarrow> Path vn
      | Some f \<Rightarrow> Path_div (Folder_filename f) vn)"

definition Document_filename :: "Document \<Rightarrow> Path" where
  "Document_filename d =
     (case Document_folder d of
        None \<Rightarrow> Path (Document_visible_name d)
      | Some f \<Rightarrow>
          Path_div (Folder_filename f) (Document_visible_name d @ ''.'' @ Document_extension d))"

fun filename :: "entity \<Rightarrow> Path" where
  "filename (Doc d) = Document_filename d"
| "filename (Fld f) = Folder_filename f"

section \<open>Raw transport (rm\_rest\_api\_types.py)\<close>

text \<open>
  The device is a snapshot: for each folder identifier (\<open>''''\<close> is the root) either
  the records of an accepted listing request, or \<open>None\<close> when the request is not
  answered with success. The snapshot does not change between requests, so a retry
  gets the answer of the first attempt; a response whose JSON does not fit the record
  class is not represented.
\<close>

type_synonym device = "string \<Rightarrow> RMApiDocument list option"

function read_folder :: "device \<Rightarrow> string option \<Rightarrow> int \<Rightarrow> error + RMApiDocument list" where
  "read_folder dev folder_id retries =
     (let fid = (case folder_id of None \<Rightarrow> '''' | Some f \<Rightarrow> f) in
      case dev fid of
        None \<Rightarrow>
          (if retries > 0 then read_folder dev (Some fid) (retries - 1)
           else Inl AssertionError)
      | Some res \<Rightarrow> Inr res)"
  by pat_completeness auto
termination
  by (relation "measure (\<lambda>(dev, folder_id, retries). nat retries)") auto

declare read_folder.simps [simp del]

definition RemarkableRESTRaw_mkdir :: "Path \<Rightarrow> error + Folder" where
  "RemarkableRESTRaw_mkdir fn =
     Inl (RuntimeError
       (''mkdir: not implemented; please create the following folder on the remarkable: (''
        @ Path_str fn @ '')''))"

section \<open>The builtin \<^verbatim>\<open>int\<close> on strings\<close>

text \<open>
  \<^verbatim>\<open>int(s)\<close> for an ASCII string: surrounding whitespace is dropped, one sign is
  allowed, then decimal digits follow, with single underscores allowed between digits.
  Everything else raises \<^verbatim>\<open>ValueError\<close>, here \<open>None\<close>. Digits outside ASCII and
  the interpreter's limit on the number of digits are not modelled.
\<close>

definition is_space :: "char \<Rightarrow> bool" where
  "is_space c =
     (let n = (of_char c :: nat) in (9 \<le> n \<and> n \<le> 13) \<or> (28 \<le> n \<and> n \<le> 32))"

definition digit_val :: "char \<Rightarrow> int option" where
  "digit_val c =
     (let n = (of_char c :: nat) in if 48 \<le> n \<and> n \<le> 57 then Some (int n - 48) else None)"

fun parse_digits :: "string \<Rightarrow> int \<Rightarrow> int option" where
  "parse_digits [] acc = Some acc"
| "parse_digits [c] acc =
     (case digit_val c of None \<Rightarrow> None | Some v \<Rightarrow> Some (acc * 10 + v))"
| "parse_digits (c # d # ds) acc =
     (if c = CHR ''_'' then
        (case digit_val d of None \<Rightarrow> None | Some v \<Rightarrow> parse_digits ds (acc * 10 + v))
      else
        (case digit_val c of None \<Rightarrow> None | Some v \<Rightarrow> parse_digits (d # ds) (acc * 10 + v)))"

definition strip :: "string \<Rightarrow> string" where
  "strip s = rev (dropWhile is_space (rev (dropWhile is_space s)))"

definition py_int :: "string \<Rightarrow> int option" where
  "py_int s =
     (let t = strip s;
          neg = (t \<noteq> [] \<and> hd t = CHR ''-'');
          u = (if t \<noteq> [] \<and> (hd t = CHR ''-'' \<or> hd t = CHR ''+'') then tl t else t)
      in case u of
           [] \<Rightarrow> None
         | c # cs \<Rightarrow>
             (case digit_val c of
                None \<Rightarrow> None
              | Some v \<Rightarrow> map_option (\<lambda>n. if neg then - n else n) (parse_digits cs v)))"

section \<open>Tree builder: \<^verbatim>\<open>RemarkableREST.get_documents\<close>\<close>

text \<open>
  The first loop of \<^verbatim>\<open>get_documents\<close>: \<open>docs'\<close> (\<^verbatim>\<open>docs_\<close>) is the list being appended to,
  \<open>log\<close> the warnings emitted so far. A failed assertion or a failed \<^verbatim>\<open>int\<close>
  ends the loop with the exception.
\<close>

fun parse_records ::
  "Folder option \<Rightarrow> RMApiDocument list \<Rightarrow> entity list \<Rightarrow> string list
   \<Rightarrow> error + entity list \<times> string list" where
  "parse_records parent [] docs' log = Inr (docs', log)"
| "parse_records parent (raw # rest) docs' log =
     (if Type raw = ''DocumentType'' then
        (case sizeInBytes raw of
           None \<Rightarrow> Inl AssertionError
         | Some sz \<Rightarrow>
             (case pageCount raw of
                None \<Rightarrow> Inl AssertionError
              | Some pc \<Rightarrow>
                  (case py_int sz of
                     None \<Rightarrow> Inl ValueError
                   | Some len \<Rightarrow>
                       parse_records parent rest
                         (docs' @
                          [Doc (Document (ID raw) parent (VissibleName raw) len ''pdf'' pc
                                  (if Parent raw \<noteq> '''' then Some (Parent raw) else None) raw)])
                         log)))
      else if Type raw = ''CollectionType'' then
        parse_records parent rest
          (docs' @
           [Fld (Folder (ID raw) parent (VissibleName raw)
                   (if Parent raw \<noteq> '''' then Some (Parent raw) else None) raw)])
          log
      else
        parse_records parent rest docs'
          (log @ [''skipping '' @ VissibleName raw @ ''/'' @ Type raw]))"

text \<open>
  The second loop: \<open>rec\<close> is the recursive call on one Folder, \<open>subs\<close> the list the
  results are added to.
\<close>

fun collect_subs ::
  "(Folder \<Rightarrow> error + entity list \<times> string list) \<Rightarrow> entity list \<Rightarrow> entity list \<Rightarrow> string list
   \<Rightarrow> error + entity list \<times> string list" where
  "collect_subs rec [] subs log = Inr (subs, log)"
| "collect_subs rec (Doc d # rest) subs log = collect_subs rec rest subs log"
| "collect_subs rec (Fld f # rest) subs log =
     (case rec f of
        Inl e \<Rightarrow> Inl e
      | Inr (s, l) \<Rightarrow> collect_subs rec rest (subs @ s) (log @ l))"

text \<open>
  The first argument bounds the depth of nested calls, as the interpreter's recursion
  limit does: a folder that lists itself makes the source recurse until
  \<^verbatim>\<open>RecursionError\<close>. The result is the returned list and the warnings logged.
\<close>

fun get_documents ::
  "nat \<Rightarrow> device \<Rightarrow> string option \<Rightarrow> int \<Rightarrow> bool \<Rightarrow> Folder option
   \<Rightarrow> error + entity list \<times> string list" where
  "get_documents 0 dev folder_id retries recurse parent = Inl RecursionError"
| "get_documents (Suc n) dev folder_id retries recurse parent =
     (case read_folder dev folder_id retries of
        Inl e \<Rightarrow> Inl e
      | Inr docs \<Rightarrow>
          (case parse_records parent docs [] [] of
             Inl e \<Rightarrow> Inl e
           | Inr (docs', log) \<Rightarrow>
               if recurse then
                 (case collect_subs
                         (\<lambda>doc. get_documents n dev (Some (Folder_id doc)) retries recurse (Some doc))
                         docs' [] log of
                    Inl e \<Rightarrow> Inl e
                  | Inr (subs, log') \<Rightarrow> Inr (docs' @ subs, log'))
               else Inr (docs', log)))"

section \<open>Path resolver\<close>

text \<open>\<^verbatim>\<open>_find_doc\<close>: the matches are collected in list order, the first is returned.\<close>

definition find_doc :: "string \<Rightarrow> string option \<Rightarrow> entity list \<Rightarrow> entity option" where
  "find_doc name pid docs =
     (let name' = (if endswith name ''.pdf'' then take (length name - 4) name else name);
          res = filter (\<lambda>d. visible_name d = name' \<and> parent_id d = pid) docs
      in case res of [] \<Rightarrow> None | r # rs \<Rightarrow> Some r)"

text \<open>\<^verbatim>\<open>if docs is None: docs = self.get_documents(recurse=True)\<close>\<close>

definition docs_or_fetch :: "nat \<Rightarrow> device \<Rightarrow> entity list option \<Rightarrow> error + entity list" where
  "docs_or_fetch n dev docs =
     (case docs of
        Some ds \<Rightarrow> Inr ds
      | None \<Rightarrow>
          (case get_documents n dev None 3 True None of
             Inl e \<Rightarrow> Inl e
           | Inr (ds, log) \<Rightarrow> Inr ds))"

text \<open>
  \<^verbatim>\<open>find_file\<close> calls itself on the parent path; the first argument bounds the
  nesting of these calls. A relative path needs one call for each of its names.
\<close>

fun find_file :: "nat \<Rightarrow> device \<Rightarrow> Path \<Rightarrow> entity list option \<Rightarrow> error + entity option" where
  "find_file 0 dev fn docs = Inl RecursionError"
| "find_file (Suc n) dev fn docs =
     (case docs_or_fetch n dev docs of
        Inl e \<Rightarrow> Inl e
      | Inr ds \<Rightarrow>
          if Path_parent fn \<noteq> Path ''.'' then
            (case find_file n dev (Path_parent fn) (Some ds) of
               Inl e \<Rightarrow> Inl e
             | Inr None \<Rightarrow> Inr None
             | Inr (Some parent) \<Rightarrow> Inr (find_doc (Path_name fn) (Some (id_of parent)) ds))
          else Inr (find_doc (Path_name fn) None ds))"

definition has_file :: "nat \<Rightarrow> device \<Rightarrow> Path \<Rightarrow> entity list option \<Rightarrow> error + bool" where
  "has_file n dev fn docs =
     (case find_file n dev fn docs of Inl e \<Rightarrow> Inl e | Inr r \<Rightarrow> Inr (r \<noteq> None))"

section \<open>Folder operations: \<^verbatim>\<open>RemarkableREST.mkdir\<close>\<close>

text \<open>
  The first argument bounds the nesting of calls, as for \<^verbatim>\<open>find_file\<close>: on an
  absolute path both functions climb to the root and call themselves on it without
  end. The last branch of the source, \<^verbatim>\<open>raise RuntimeError("invalid case")\<close>, is
  not reachable for a value that is \<^verbatim>\<open>None\<close>, a Document or a Folder, and has no
  counterpart here.
\<close>

fun mkdir ::
  "nat \<Rightarrow> device \<Rightarrow> Path \<Rightarrow> bool \<Rightarrow> bool \<Rightarrow> entity list option \<Rightarrow> error + Folder" where
  "mkdir 0 dev fn exists_ok parents docs = Inl RecursionError"
| "mkdir (Suc n) dev fn exists_ok parents docs =
     (case docs_or_fetch n dev docs of
        Inl e \<Rightarrow> Inl e
      | Inr ds \<Rightarrow>
          (case
             (if Path_parent fn \<noteq> Path ''.'' then
                (if parents then
                   (case mkdir n dev (Path_parent fn) True True (Some ds) of
                      Inl e \<Rightarrow> Inl e
                    | Inr parent \<Rightarrow> Inr (Some (Folder_id parent)))
                 else
                   (case find_file n dev (Path_parent fn) (Some ds) of
                      Inl e \<Rightarrow> Inl e
                    | Inr None \<Rightarrow> Inl (RuntimeError ''parent does not exist'')
                    | Inr (Some parent) \<Rightarrow> Inr (Some (id_of parent))))
              else Inr None)
           of
             Inl e \<Rightarrow> Inl e
           | Inr pid \<Rightarrow>
               (let folder = find_doc (Path_name fn) pid ds in
                if folder \<noteq> None \<and> \<not> exists_ok then
                  Inl (RuntimeError ''folder already exists'')
                else
                  (case folder of
                     Some (Doc d) \<Rightarrow>
                       Inl (RuntimeError
                              (''mkdir: document of same name exists '' @ [CHR 0x27]
                               @ Path_str fn @ [CHR 0x27]))
                   | Some (Fld f) \<Rightarrow>
                       (if \<not> exists_ok then Inl (RuntimeError ''folder already exists'')
                        else Inr f)
                   | None \<Rightarrow> RemarkableRESTRaw_mkdir fn))))"


section \<open>Notions used in the statements\<close>

subsection \<open>Records\<close>

text \<open>
  The record types that the parser accepts, the records on which it raises no
  exception, and the text of the warning logged for a skipped record.
\<close>

definition known_type :: "RMApiDocument \<Rightarrow> bool" where
  "known_type raw = (Type raw = ''DocumentType'' \<or> Type raw = ''CollectionType'')"


definition skip_warning :: "RMApiDocument \<Rightarrow> string" where
  "skip_warning raw = ''skipping '' @ VissibleName raw @ ''/'' @ Type raw"

subsection \<open>Names and parents\<close>

text \<open>The name that \<^verbatim>\<open>_find_doc\<close> compares with the display names.\<close>

definition strip_pdf :: "string \<Rightarrow> string" where
  "strip_pdf name = (if endswith name ''.pdf'' then take (length name - 4) name else name)"

text \<open>
  The first half of \<^verbatim>\<open>mkdir\<close> succeeds and leaves \<open>pid\<close> in \<^verbatim>\<open>parent_id\<close>: the
  parent of \<open>fn\<close> is trivial, or the recursive \<^verbatim>\<open>mkdir\<close> (for \<^verbatim>\<open>parents=True\<close>)
  or \<^verbatim>\<open>find_file\<close> (for \<^verbatim>\<open>parents=False\<close>) returns an entity with identifier
  \<open>pid\<close>.
\<close>

definition parent_resolves ::
  "nat \<Rightarrow> device \<Rightarrow> Path \<Rightarrow> bool \<Rightarrow> entity list \<Rightarrow> string option \<Rightarrow> bool" where
  "parent_resolves n dev fn parents ds pid =
     (if Path_parent fn = Path ''.'' then pid = None
      else if parents then
        (case mkdir n dev (Path_parent fn) True True (Some ds) of
           Inl e \<Rightarrow> False
         | Inr p \<Rightarrow> pid = Some (Folder_id p))
      else
        (case find_file n dev (Path_parent fn) (Some ds) of
           Inl e \<Rightarrow> False
         | Inr None \<Rightarrow> False
         | Inr (Some p) \<Rightarrow> pid = Some (id_of p)))"

text \<open>\<^verbatim>\<open>isinstance(doc, Folder)\<close>, and the Folders of a list in its order.\<close>

fun is_Folder :: "entity \<Rightarrow> bool" where
  "is_Folder (Fld f) = True"
| "is_Folder (Doc d) = False"

fun folders_of :: "entity list \<Rightarrow> Folder list" where
  "folders_of [] = []"
| "folders_of (Doc d # es) = folders_of es"
| "folders_of (Fld f # es) = f # folders_of es"

text \<open>
  The chain of parent Folders that the \<^verbatim>\<open>filename\<close> properties walk: a Folder
  with the Folders above it, and the Folders above an entity.
\<close>

fun Folder_chain :: "Folder \<Rightarrow> Folder list" where
  "Folder_chain (Folder i fo vn pid r) =
     Folder i fo vn pid r # (case fo of None \<Rightarrow> [] | Some f \<Rightarrow> Folder_chain f)"

definition ancestors :: "entity \<Rightarrow> Folder list" where
  "ancestors e = (case folder e of None \<Rightarrow> [] | Some f \<Rightarrow> Folder_chain f)"

text \<open>
  In a list returned for the parent \<open>P\<close>, every entry either belongs to the level
  of \<open>P\<close> or comes after the entry of its own parent Folder.
\<close>

definition parents_first :: "Folder option \<Rightarrow> entity list \<Rightarrow> bool" where
  "parents_first P xs =
     (\<forall>pre e post. xs = pre @ e # post \<longrightarrow>
        folder e = P \<or> (\<exists>f. folder e = Some f \<and> Fld f \<in> set pre))"

text \<open>
  An entity that \<^verbatim>\<open>find_file\<close> can reach by its own path segment: it is the first
  entry of the list with its display name and parent identifier; its parent
  identifier is the identifier of its parent Folder; its display name is a single path
  segment, and, where the segment is the bare display name (a Folder, or a Document at
  the root), that name is kept by \<^verbatim>\<open>Path\<close> and by the stripping of \<open>.pdf\<close>.
\<close>

definition resolvable :: "entity list \<Rightarrow> entity \<Rightarrow> bool" where
  "resolvable docs x =
     (List.find (\<lambda>y. visible_name y = visible_name x \<and> parent_id y = parent_id x) docs = Some x \<and>
      parent_id x = map_option Folder_id (folder x) \<and>
      CHR ''/'' \<notin> set (visible_name x) \<and>
      (is_Folder x \<or> folder x = None \<longrightarrow>
         visible_name x \<noteq> '''' \<and> visible_name x \<noteq> ''.'' \<and>
         \<not> endswith (visible_name x) ''.pdf''))"

subsection \<open>Small devices and lists, used to instantiate the theorems\<close>

text \<open>
  A device with the Folder \<open>A\<close> and a record of an unknown type at the root, and
  the Document \<open>B\<close> inside \<open>A\<close>; requests for other folders fail.
\<close>

definition example_folder_record :: RMApiDocument where
  "example_folder_record =
     \<lparr>ID = ''1'', Parent = '''', Type = ''CollectionType'', VissibleName = ''A'',
      pageCount = None, sizeInBytes = None\<rparr>"

definition example_document_record :: RMApiDocument where
  "example_document_record =
     \<lparr>ID = ''2'', Parent = ''1'', Type = ''DocumentType'', VissibleName = ''B'',
      pageCount = Some 1, sizeInBytes = Some ''10''\<rparr>"

definition example_other_record :: RMApiDocument where
  "example_other_record =
     \<lparr>ID = ''3'', Parent = '''', Type = ''TemplateType'', VissibleName = ''C'',
      pageCount = None, sizeInBytes = None\<rparr>"

definition example_device :: device where
  "example_device fid =
     (if fid = '''' then Some [example_folder_record, example_other_record]
      else if fid = ''1'' then Some [example_document_record]
      else None)"


definition example_root_document :: Document where
  "example_root_document =
     Document ''5'' None ''a'' 10 ''pdf'' 1 None
       \<lparr>ID = ''5'', Parent = '''', Type = ''DocumentType'', VissibleName = ''a'',
        pageCount = Some 1, sizeInBytes = Some ''10''\<rparr>"

text \<open>
  Entity lists: the Folder \<open>A\<close> with the Document \<open>B\<close> in it and the Document
  \<open>a\<close> at the root; the Folder \<open>A\<close> with the Folder \<open>S\<close> in it; and the root
  Document \<open>a\<close> with a Folder \<open>F\<close> whose parent identifier is the Document's.
\<close>

definition example_docs :: "entity list" where
  "example_docs =
     [Fld (Folder ''1'' None ''A'' None example_folder_record),
      Doc (Document ''2'' (Some (Folder ''1'' None ''A'' None example_folder_record))
             ''B'' 10 ''pdf'' 1 (Some ''1'') example_document_record),
      Doc example_root_document]"



text \<open>A Folder named \<open>X.pdf\<close>, and the device whose root lists it alone.\<close>

definition example_pdf_folder :: Folder where
  "example_pdf_folder =
     Folder ''6'' None ''X.pdf'' None
       \<lparr>ID = ''6'', Parent = '''', Type = ''CollectionType'', VissibleName = ''X.pdf'',
        pageCount = None, sizeInBytes = None\<rparr>"

definition example_pdf_device :: device where
  "example_pdf_device fid =
     (if fid = '''' then Some [Folder_raw example_pdf_folder] else Some [])"

text \<open>A second root Document with the display name of the first.\<close>

definition example_twin_document :: Document where
  "example_twin_document =
     Document ''9'' None ''a'' 20 ''pdf'' 2 None
       \<lparr>ID = ''9'', Parent = '''', Type = ''DocumentType'', VissibleName = ''a'',
        pageCount = Some 2, sizeInBytes = Some ''20''\<rparr>"

definition example_twin_device :: device where
  "example_twin_device fid =
     (if fid = '''' then Some [Document_raw example_root_document, Document_raw example_twin_document]
      else None)"

section \<open>Properties of the raw transport and the record parser\<close>


lemma py_int_10: "py_int ''10'' = Some 10"
  by (simp add: py_int_def strip_def is_space_def digit_val_def)


lemma read_folder_snapshot:
  "read_folder dev folder_id retries =
     (case dev (case folder_id of None \<Rightarrow> '''' | Some f \<Rightarrow> f) of
        None \<Rightarrow> Inl AssertionError | Some res \<Rightarrow> Inr res)"
proof (induction dev folder_id retries rule: read_folder.induct)
  case (1 dev folder_id retries)
  show ?case
  proof (cases "dev (case folder_id of None \<Rightarrow> '''' | Some f \<Rightarrow> f)")
    case None
    with "1.IH" show ?thesis
      by (subst read_folder.simps) (simp add: Let_def)
  next
    case (Some res)
    then show ?thesis
      by (subst read_folder.simps) (simp add: Let_def)
  qed
qed

lemma parse_records_raws:
  "parse_records parent raws acc log = Inr (out, log') \<Longrightarrow>
     map raw_of out = map raw_of acc @ filter known_type raws \<and>
     log' = log @ map skip_warning (filter (\<lambda>r. \<not> known_type r) raws)"
proof (induction raws arbitrary: acc log)
  case Nil
  then show ?case by simp
next
  case (Cons a raws)
  show ?case
  proof (cases "known_type a")
    case True
    with Cons.prems obtain x where
      "parse_records parent raws (acc @ [x]) log = Inr (out, log')" "raw_of x = a"
      by (auto simp: known_type_def split: if_splits option.splits)
    from Cons.IH [OF this(1)] this(2) True show ?thesis by simp
  next
    case False
    with Cons.prems have "parse_records parent raws acc (log @ [skip_warning a]) = Inr (out, log')"
      by (simp add: known_type_def skip_warning_def)
    from Cons.IH [OF this] False show ?thesis by simp
  qed
qed


lemma parse_records_prefix:
  "parse_records parent raws acc log = Inr (out, log') \<Longrightarrow>
     \<exists>ds. out = acc @ ds \<and> (\<forall>e \<in> set ds. folder e = parent \<and> raw_of e \<in> set raws)"
  by (induction raws arbitrary: acc log)
     (fastforce split: if_splits option.splits)+






lemma split_slash_plain: "CHR ''/'' \<notin> set s \<Longrightarrow> split_slash s = [s]"
  by (induction s) auto

lemma Path_dot: "Path ''.'' = PosixPath '''' []"
  by (simp add: Path_def splitroot_def startswith_def)

lemma Path_plain:
  "CHR ''/'' \<notin> set s \<Longrightarrow> s \<noteq> '''' \<Longrightarrow> s \<noteq> ''.'' \<Longrightarrow> Path s = PosixPath '''' [s]"
  by (cases s) (auto simp: Path_def splitroot_def startswith_def split_slash_plain)

section \<open>The parser on single records, and \<^verbatim>\<open>filename\<close> at the root\<close>

text \<open>
  C3. A Document without a parent Folder does not get its extension: for the root
  Document named \<open>a\<close> with extension \<open>pdf\<close> the property returns the path \<open>a\<close>,
  not \<open>a.pdf\<close> as the branch for Documents inside a Folder would build it.
\<close>

theorem Document_filename_root_drops_extension:
  "Document_folder example_root_document = None \<and>
   Document_filename example_root_document = PosixPath '''' [''a''] \<and>
   Path (Document_visible_name example_root_document @ ''.'' @
         Document_extension example_root_document) = PosixPath '''' [''a.pdf''] \<and>
   Document_filename example_root_document \<noteq>
     Path (Document_visible_name example_root_document @ ''.'' @
           Document_extension example_root_document)"
  by (simp add: example_root_document_def Document_filename_def Path_plain)




section \<open>Properties of the path resolver\<close>

lemma docs_or_fetch_Some [simp]: "docs_or_fetch n dev (Some ds) = Inr ds"
  by (simp add: docs_or_fetch_def)

lemma find_doc_find:
  "find_doc name pid ds = List.find (\<lambda>d. visible_name d = strip_pdf name \<and> parent_id d = pid) ds"
proof -
  have "(case filter P xs of [] \<Rightarrow> None | r # rs \<Rightarrow> Some r) = List.find P xs" for P :: "entity \<Rightarrow> bool" and xs
    by (induction xs) auto
  then show ?thesis by (simp add: find_doc_def strip_pdf_def Let_def)
qed

lemma strip_pdf_append: "strip_pdf (s @ ''.pdf'') = s"
  by (simp add: strip_pdf_def endswith_def)

lemma strip_pdf_plain: "\<not> endswith s ''.pdf'' \<Longrightarrow> strip_pdf s = s"
  by (simp add: strip_pdf_def)

lemma strip_pdf_shorter: "endswith s ''.pdf'' \<Longrightarrow> strip_pdf s \<noteq> s"
proof
  assume e: "endswith s ''.pdf''" and eq: "strip_pdf s = s"
  from e have l: "4 \<le> length s" by (simp add: endswith_def)
  from e eq have "take (length s - 4) s = s" by (simp only: strip_pdf_def if_True)
  then have "length s \<le> length s - 4" by (simp only: take_all_iff)
  with l show False by simp
qed

lemma find_doc_visible_name:
  "find_doc name pid ds = Some e \<Longrightarrow>
     visible_name e = strip_pdf name \<and> parent_id e = pid \<and> e \<in> set ds"
  by (auto simp: find_doc_find find_Some_iff)

lemma find_file_visible_name:
  "find_file n dev fn docs = Inr (Some e) \<Longrightarrow> visible_name e = strip_pdf (Path_name fn)"
  by (cases n) (auto split: sum.splits option.splits if_splits dest: find_doc_visible_name)

lemma Path_pdf:
  "CHR ''/'' \<notin> set s \<Longrightarrow> Path (s @ ''.pdf'') = PosixPath '''' [s @ ''.pdf'']"
  by (rule Path_plain) auto

lemma find_file_single:
  "find_file (Suc n) dev (PosixPath '''' [s]) (Some ds) = Inr (find_doc s None ds)"
  by (simp add: Path_parent_def Path_name_def Path_dot)



lemma split_slash_append:
  "CHR ''/'' \<notin> set s \<Longrightarrow> split_slash (s @ CHR ''/'' # t) = s # split_slash t"
  by (induction s) auto

lemma Path_pdf_dir:
  assumes "CHR ''/'' \<notin> set a" and "CHR ''/'' \<notin> set b" and "b \<noteq> ''''" and "b \<noteq> ''.''"
  shows "Path (a @ ''.pdf/'' @ b) = PosixPath '''' [a @ ''.pdf'', b]"
proof -
  have eq: "a @ ''.pdf/'' @ b = (a @ ''.pdf'') @ CHR ''/'' # b" by simp
  have 1: "split_slash ((a @ ''.pdf'') @ CHR ''/'' # b) = (a @ ''.pdf'') # split_slash b"
    by (rule split_slash_append) (use assms(1) in simp)
  have 2: "split_slash b = [b]" by (rule split_slash_plain) fact
  have "split_slash (a @ ''.pdf/'' @ b) = [a @ ''.pdf'', b]"
    by (simp only: eq 1 2)
  moreover have "splitroot (a @ ''.pdf/'' @ b) = ''''"
    using assms(1) by (cases a) (auto simp: splitroot_def startswith_def)
  ultimately show ?thesis using assms(3,4) by (simp add: Path_def)
qed

lemma find_file_two:
  "find_file (Suc (Suc n)) dev (PosixPath '''' [s, t]) (Some ds) =
     (case find_doc s None ds of
        None \<Rightarrow> Inr None
      | Some p \<Rightarrow> Inr (find_doc t (Some (id_of p)) ds))"
  by (simp add: Path_parent_def Path_name_def Path_dot split: option.splits)

text \<open>
  C9. The suffix \<open>.pdf\<close> is stripped from every path segment and for both kinds of
  entity: a Folder named \<open>x\<close> is returned for the path \<open>x.pdf\<close>; a directory
  segment \<open>a.pdf\<close> resolves to the Folder named \<open>a\<close>, under which the next segment
  is then looked up; and a Folder whose display name ends in \<open>.pdf\<close> is never the
  result for a path whose final name is that display name.
\<close>

theorem find_file_strips_every_segment:
  "(CHR ''/'' \<notin> set x \<and>
    List.find (\<lambda>e. visible_name e = x \<and> parent_id e = None) docs = Some (Fld f) \<longrightarrow>
      find_file (Suc n) dev (Path (x @ ''.pdf'')) (Some docs) = Inr (Some (Fld f))) \<and>
   (CHR ''/'' \<notin> set a \<and> CHR ''/'' \<notin> set b \<and> b \<noteq> '''' \<and> b \<noteq> ''.'' \<and>
    List.find (\<lambda>e. visible_name e = a \<and> parent_id e = None) docs = Some (Fld g) \<longrightarrow>
      find_file (Suc (Suc n)) dev (Path (a @ ''.pdf/'' @ b)) (Some docs) =
        Inr (find_doc b (Some (Folder_id g)) docs)) \<and>
   (endswith (Folder_visible_name h) ''.pdf'' \<and> Path_name fn = Folder_visible_name h \<longrightarrow>
      find_file m dev fn docs' \<noteq> Inr (Some (Fld h)))"
proof (intro conjI impI; (elim conjE)?)
  assume "CHR ''/'' \<notin> set x"
    and "List.find (\<lambda>e. visible_name e = x \<and> parent_id e = None) docs = Some (Fld f)"
  then show "find_file (Suc n) dev (Path (x @ ''.pdf'')) (Some docs) = Inr (Some (Fld f))"
    by (simp add: Path_pdf find_file_single find_doc_find strip_pdf_append
          del: find_file.simps(2))
next
  assume h: "CHR ''/'' \<notin> set a" "CHR ''/'' \<notin> set b" "b \<noteq> ''''" "b \<noteq> ''.''"
    and l: "List.find (\<lambda>e. visible_name e = a \<and> parent_id e = None) docs = Some (Fld g)"
  have p: "Path (a @ ''.pdf/'' @ b) = PosixPath '''' [a @ ''.pdf'', b]"
    by (rule Path_pdf_dir) fact+
  have f: "find_doc (a @ ''.pdf'') None docs = Some (Fld g)"
    using l by (simp only: find_doc_find strip_pdf_append)
  have "find_file (Suc (Suc n)) dev (PosixPath '''' [a @ ''.pdf'', b]) (Some docs) =
        Inr (find_doc b (Some (Folder_id g)) docs)"
    by (simp only: find_file_two f option.case id_of.simps)
  with p show "find_file (Suc (Suc n)) dev (Path (a @ ''.pdf/'' @ b)) (Some docs) =
        Inr (find_doc b (Some (Folder_id g)) docs)"
    by (simp only:)
next
  assume e: "endswith (Folder_visible_name h) ''.pdf''"
    and n: "Path_name fn = Folder_visible_name h"
  show "find_file m dev fn docs' \<noteq> Inr (Some (Fld h))"
  proof
    assume "find_file m dev fn docs' = Inr (Some (Fld h))"
    from find_file_visible_name [OF this] n
    have "strip_pdf (Folder_visible_name h) = Folder_visible_name h" by simp
    with strip_pdf_shorter [OF e] show False by simp
  qed
qed

theorem find_file_strips_every_segment_witness:
  "CHR ''/'' \<notin> set ''A'' \<and> CHR ''/'' \<notin> set ''B'' \<and> ''B'' \<noteq> '''' \<and> ''B'' \<noteq> ''.'' \<and>
   List.find (\<lambda>e. visible_name e = ''A'' \<and> parent_id e = None) example_docs
     = Some (Fld (Folder ''1'' None ''A'' None example_folder_record)) \<and>
   find_file (Suc 0) example_device (Path ''A.pdf'') (Some example_docs)
     = Inr (Some (Fld (Folder ''1'' None ''A'' None example_folder_record))) \<and>
   find_file (Suc (Suc 0)) example_device (Path ''A.pdf/B'') (Some example_docs)
     = Inr (Some (Doc (Document ''2'' (Some (Folder ''1'' None ''A'' None example_folder_record))
             ''B'' 10 ''pdf'' 1 (Some ''1'') example_document_record))) \<and>
   endswith (Folder_visible_name example_pdf_folder) ''.pdf'' \<and>
   Path_name (Path ''X.pdf'') = Folder_visible_name example_pdf_folder \<and>
   find_file (Suc 0) example_device (Path ''X.pdf'') (Some [Fld example_pdf_folder])
     \<noteq> Inr (Some (Fld example_pdf_folder))"
proof -
  let ?A = "Folder ''1'' None ''A'' None example_folder_record"
  have s: "CHR ''/'' \<notin> set ''A''" "CHR ''/'' \<notin> set ''B''" "''B'' \<noteq> ''''" "''B'' \<noteq> ''.''"
    by simp_all
  have f: "List.find (\<lambda>e. visible_name e = ''A'' \<and> parent_id e = None) example_docs
             = Some (Fld ?A)"
    by (simp add: example_docs_def)
  have e: "endswith (Folder_visible_name example_pdf_folder) ''.pdf''"
    by (simp add: example_pdf_folder_def endswith_def)
  have n: "Path_name (Path ''X.pdf'') = Folder_visible_name example_pdf_folder"
    by (simp add: example_pdf_folder_def Path_plain Path_name_def)
  have b: "find_doc ''B'' (Some (Folder_id ?A)) example_docs
      = Some (Doc (Document ''2'' (Some ?A) ''B'' 10 ''pdf'' 1 (Some ''1'') example_document_record))"
    by (simp add: find_doc_find strip_pdf_def endswith_def example_docs_def
          example_root_document_def)
  note t = find_file_strips_every_segment
    [of "''A''" example_docs ?A 0 example_device "''A''" "''B''" ?A example_pdf_folder
        "Path ''X.pdf''" "Suc 0" "Some [Fld example_pdf_folder]"]
  from t s f have 1: "find_file (Suc 0) example_device (Path (''A'' @ ''.pdf'')) (Some example_docs)
      = Inr (Some (Fld ?A))"
    by blast
  from t s f have 2: "find_file (Suc (Suc 0)) example_device (Path (''A'' @ ''.pdf/'' @ ''B''))
      (Some example_docs) = Inr (find_doc ''B'' (Some (Folder_id ?A)) example_docs)"
    by blast
  from t e n have 3: "find_file (Suc 0) example_device (Path ''X.pdf'')
      (Some [Fld example_pdf_folder]) \<noteq> Inr (Some (Fld example_pdf_folder))"
    by blast
  from 1 2 3 b f e n show ?thesis
    by (simp del: find_file.simps)
qed

section \<open>Properties of \<^verbatim>\<open>mkdir\<close>\<close>

lemma mkdir_target:
  "parent_resolves n dev fn parents ds pid \<Longrightarrow>
   mkdir (Suc n) dev fn exists_ok parents (Some ds) =
     (case find_doc (Path_name fn) pid ds of
        None \<Rightarrow> RemarkableRESTRaw_mkdir fn
      | Some (Doc d) \<Rightarrow>
          (if exists_ok then
             Inl (RuntimeError (''mkdir: document of same name exists '' @ [CHR 0x27]
                                @ Path_str fn @ [CHR 0x27]))
           else Inl (RuntimeError ''folder already exists''))
      | Some (Fld f) \<Rightarrow>
          (if exists_ok then Inr f else Inl (RuntimeError ''folder already exists'')))"
proof -
  assume r: "parent_resolves n dev fn parents ds pid"
  have p: "(if Path_parent fn \<noteq> Path ''.'' then
              (if parents then
                 (case mkdir n dev (Path_parent fn) True True (Some ds) of
                    Inl e \<Rightarrow> Inl e
                  | Inr parent \<Rightarrow> Inr (Some (Folder_id parent)))
               else
                 (case find_file n dev (Path_parent fn) (Some ds) of
                    Inl e \<Rightarrow> Inl e
                  | Inr None \<Rightarrow> Inl (RuntimeError ''parent does not exist'')
                  | Inr (Some parent) \<Rightarrow> Inr (Some (id_of parent))))
            else Inr None) = Inr pid"
  proof (cases "Path_parent fn = Path ''.''")
    case True
    with r show ?thesis by (simp add: parent_resolves_def)
  next
    case False
    show ?thesis
    proof (cases parents)
      case True
      with r False show ?thesis
        by (cases "mkdir n dev (Path_parent fn) True True (Some ds)")
           (simp_all add: parent_resolves_def)
    next
      case f: False
      with r False show ?thesis
        by (cases "find_file n dev (Path_parent fn) (Some ds)")
           (auto simp: parent_resolves_def split: option.splits)
    qed
  qed
  show ?thesis
    by (subst mkdir.simps(2), subst docs_or_fetch_Some, simp only: sum.case, subst p)
       (simp add: Let_def split: option.split entity.split)
qed

lemma mkdir_propagates:
  "Path_parent fn \<noteq> Path ''.'' \<Longrightarrow>
   mkdir n dev (Path_parent fn) True True (Some ds) = Inl e \<Longrightarrow>
   mkdir (Suc n) dev fn exists_ok True (Some ds) = Inl e"
  by (subst mkdir.simps(2)) simp

lemma Path_names_funpow_parent:
  "Path_names ((Path_parent ^^ j) p) \<noteq> [] \<Longrightarrow> Path_names p \<noteq> []"
proof (induction j)
  case 0
  then show ?case by simp
next
  case (Suc j)
  then show ?case by (auto simp: Path_parent_def split: if_splits)
qed

lemma mkdir_first_missing:
  assumes "mkdir (Suc n) dev ((Path_parent ^^ j) fn) ok True (Some ds) = Inl e"
    and "j = 0 \<or> ok" and "j = 0 \<longrightarrow> ok = exists_ok"
    and "Path_names ((Path_parent ^^ j) fn) \<noteq> []"
  shows "mkdir (Suc n + j) dev fn exists_ok True (Some ds) = Inl e"
  using assms
proof (induction j arbitrary: fn exists_ok ok)
  case 0
  then show ?case by (simp del: mkdir.simps)
next
  case (Suc j)
  from Suc.prems(1) have m: "mkdir (Suc n) dev ((Path_parent ^^ j) (Path_parent fn)) ok True (Some ds) = Inl e"
    by (simp add: funpow_swap1 del: mkdir.simps)
  from Suc.prems(2) have ok: "ok" by simp
  from Suc.prems(4) have nn: "Path_names ((Path_parent ^^ j) (Path_parent fn)) \<noteq> []"
    by (simp add: funpow_swap1)
  from Suc.IH [OF m _ _ nn, of True] ok
  have "mkdir (Suc n + j) dev (Path_parent fn) True True (Some ds) = Inl e"
    by (simp del: mkdir.simps)
  moreover from Path_names_funpow_parent [OF nn] have "Path_parent fn \<noteq> Path ''.''"
    by (auto simp: Path_dot)
  ultimately have "mkdir (Suc (Suc n + j)) dev fn exists_ok True (Some ds) = Inl e"
    by (rule mkdir_propagates [rotated])
  then show ?case by (simp del: mkdir.simps)
qed


lemmas path_eval =
  Path_def splitroot_def startswith_def Path_parent_def Path_name_def Path_str_def

text \<open>
  C10. When the name looked up under the resolved parent is taken by a Document,
  \<^verbatim>\<open>mkdir\<close> with \<^verbatim>\<open>exists_ok=False\<close> raises \<open>folder already exists\<close>, since
  that test comes first; only with \<^verbatim>\<open>exists_ok=True\<close> does it raise the error
  that names the Document.
\<close>

theorem mkdir_Document_at_target:
  assumes "parent_resolves n dev fn parents ds pid"
    and "find_doc (Path_name fn) pid ds = Some (Doc d)"
  shows "mkdir (Suc n) dev fn False parents (Some ds) = Inl (RuntimeError ''folder already exists'') \<and>
         mkdir (Suc n) dev fn True parents (Some ds) =
           Inl (RuntimeError (''mkdir: document of same name exists '' @ [CHR 0x27]
                              @ Path_str fn @ [CHR 0x27]))"
  using assms(2) by (simp add: mkdir_target [OF assms(1)] del: mkdir.simps)

lemma example_find_A:
  "find_file (Suc 0) example_device (PosixPath '''' [''A'']) (Some example_docs) =
     Inr (Some (Fld (Folder ''1'' None ''A'' None example_folder_record)))"
  by (simp add: find_file_single find_doc_find strip_pdf_def endswith_def example_docs_def
        del: find_file.simps)

lemma example_mkdir_A:
  "mkdir (Suc 0) example_device (PosixPath '''' [''A'']) True True (Some example_docs) =
     Inr (Folder ''1'' None ''A'' None example_folder_record)"
proof -
  have "parent_resolves 0 example_device (PosixPath '''' [''A'']) True example_docs None"
    by (simp add: parent_resolves_def Path_parent_def Path_dot)
  from mkdir_target [OF this] show ?thesis
    by (simp add: Path_name_def find_doc_find strip_pdf_def endswith_def example_docs_def
          del: mkdir.simps)
qed

theorem mkdir_Document_at_target_witness:
  "parent_resolves (Suc 0) example_device (Path ''A/B'') False example_docs (Some ''1'') \<and>
   find_doc (Path_name (Path ''A/B'')) (Some ''1'') example_docs =
     Some (Doc (Document ''2'' (Some (Folder ''1'' None ''A'' None example_folder_record))
             ''B'' 10 ''pdf'' 1 (Some ''1'') example_document_record)) \<and>
   mkdir (Suc (Suc 0)) example_device (Path ''A/B'') False False (Some example_docs) =
     Inl (RuntimeError ''folder already exists'') \<and>
   mkdir (Suc (Suc 0)) example_device (Path ''A/B'') True False (Some example_docs) =
     Inl (RuntimeError (''mkdir: document of same name exists '' @ [CHR 0x27] @ ''A/B''
                        @ [CHR 0x27]))"
proof -
  have p: "Path ''A/B'' = PosixPath '''' [''A'', ''B'']"
    by (simp add: path_eval)
  have r: "parent_resolves (Suc 0) example_device (Path ''A/B'') False example_docs (Some ''1'')"
    by (simp add: p parent_resolves_def Path_parent_def Path_dot example_find_A
          del: find_file.simps)
  have f: "find_doc (Path_name (Path ''A/B'')) (Some ''1'') example_docs =
     Some (Doc (Document ''2'' (Some (Folder ''1'' None ''A'' None example_folder_record))
             ''B'' 10 ''pdf'' 1 (Some ''1'') example_document_record))"
    by (simp add: p Path_name_def find_doc_find strip_pdf_def endswith_def example_docs_def
          example_root_document_def)
  have s: "Path_str (Path ''A/B'') = ''A/B''"
    by (simp add: p Path_str_def)
  from mkdir_Document_at_target [OF r f] r f s show ?thesis
    by (simp del: mkdir.simps)
qed


text \<open>
  C2. With a Document named \<open>a\<close> at the root and no Folder of that name,
  \<^verbatim>\<open>mkdir(Path("a"), exists_ok=True, parents=False)\<close> raises the error that names
  the Document, not the \<open>not implemented\<close> error; and with \<^verbatim>\<open>parents=False\<close> and a
  parent \<open>Q\<close> that does not exist, \<^verbatim>\<open>mkdir(Path("Q/B"))\<close> raises
  \<open>parent does not exist\<close>.
\<close>

theorem mkdir_not_implemented_counterexample:
  "find_doc ''a'' None (filter is_Folder example_docs) = None \<and>
   mkdir (Suc 0) example_device (Path ''a'') True False (Some example_docs) =
     Inl (RuntimeError (''mkdir: document of same name exists '' @ [CHR 0x27] @ ''a''
                        @ [CHR 0x27])) \<and>
   find_doc ''B'' None (filter is_Folder example_docs) = None \<and>
   find_doc ''Q'' None (filter is_Folder example_docs) = None \<and>
   mkdir (Suc (Suc 0)) example_device (Path ''Q/B'') True False (Some example_docs) =
     Inl (RuntimeError ''parent does not exist'')"
proof -
  have p: "Path ''a'' = PosixPath '''' [''a'']" "Path ''Q/B'' = PosixPath '''' [''Q'', ''B'']"
    by (simp_all add: path_eval)
  have 1: "find_doc ''a'' None (filter is_Folder example_docs) = None"
    "find_doc ''B'' None (filter is_Folder example_docs) = None"
    "find_doc ''Q'' None (filter is_Folder example_docs) = None"
    by (simp_all add: find_doc_find strip_pdf_def endswith_def example_docs_def)
  have "parent_resolves 0 example_device (PosixPath '''' [''a'']) False example_docs None"
    by (simp add: parent_resolves_def Path_parent_def Path_dot)
  from mkdir_target [OF this, of True]
  have 2: "mkdir (Suc 0) example_device (Path ''a'') True False (Some example_docs) =
     Inl (RuntimeError (''mkdir: document of same name exists '' @ [CHR 0x27] @ ''a''
                        @ [CHR 0x27]))"
    by (simp add: p Path_name_def Path_str_def find_doc_find strip_pdf_def endswith_def
          example_docs_def example_root_document_def del: mkdir.simps)
  have "find_file (Suc 0) example_device (PosixPath '''' [''Q'']) (Some example_docs) = Inr None"
    by (simp add: find_file_single find_doc_find strip_pdf_def endswith_def example_docs_def
          example_root_document_def del: find_file.simps)
  then have 3: "mkdir (Suc (Suc 0)) example_device (Path ''Q/B'') True False (Some example_docs) =
     Inl (RuntimeError ''parent does not exist'')"
    by (subst mkdir.simps(2)) (simp add: p Path_parent_def Path_dot del: find_file.simps mkdir.simps)
  from 1 2 3 show ?thesis by (simp del: mkdir.simps)
qed

text \<open>
  C2, amended. When the parent of \<open>fn\<close> is trivial or resolves (through
  \<^verbatim>\<open>find_file\<close> for \<^verbatim>\<open>parents=False\<close>, through the recursive call for
  \<^verbatim>\<open>parents=True\<close>) and no entity at all, Folder or Document, matches the final
  name under it, \<^verbatim>\<open>mkdir\<close> raises the \<open>not implemented\<close> error for \<open>fn\<close>, for
  either value of \<^verbatim>\<open>parents\<close> and of \<^verbatim>\<open>exists_ok\<close>. With \<^verbatim>\<open>parents=True\<close>
  the same error is raised for the first ancestor \<open>a\<close> of \<open>fn\<close> that is missing in
  this way. The remote creation itself fails for every path.
\<close>

theorem mkdir_not_implemented:
  "(parent_resolves n dev fn parents ds pid \<and> find_doc (Path_name fn) pid ds = None \<longrightarrow>
      mkdir (Suc n) dev fn exists_ok parents (Some ds) =
        Inl (RuntimeError
          (''mkdir: not implemented; please create the following folder on the remarkable: (''
           @ Path_str fn @ '')''))) \<and>
   (parent_resolves n dev a True ds pid' \<and> find_doc (Path_name a) pid' ds = None \<and>
    Path_names a \<noteq> [] \<and> a = (Path_parent ^^ j) fn' \<longrightarrow>
      mkdir (Suc n + j) dev fn' exists_ok' True (Some ds) =
        Inl (RuntimeError
          (''mkdir: not implemented; please create the following folder on the remarkable: (''
           @ Path_str a @ '')''))) \<and>
   RemarkableRESTRaw_mkdir fn'' =
     Inl (RuntimeError
       (''mkdir: not implemented; please create the following folder on the remarkable: (''
        @ Path_str fn'' @ '')''))"
proof (intro conjI impI; (elim conjE)?)
  assume "parent_resolves n dev fn parents ds pid" and "find_doc (Path_name fn) pid ds = None"
  then show "mkdir (Suc n) dev fn exists_ok parents (Some ds) =
        Inl (RuntimeError
          (''mkdir: not implemented; please create the following folder on the remarkable: (''
           @ Path_str fn @ '')''))"
    by (simp add: mkdir_target RemarkableRESTRaw_mkdir_def del: mkdir.simps)
next
  assume r: "parent_resolves n dev a True ds pid'" and f: "find_doc (Path_name a) pid' ds = None"
    and nn: "Path_names a \<noteq> []" and a: "a = (Path_parent ^^ j) fn'"
  let ?e = "RuntimeError
          (''mkdir: not implemented; please create the following folder on the remarkable: (''
           @ Path_str a @ '')'')"
  from f have m: "mkdir (Suc n) dev a (j = 0 \<and> exists_ok' \<or> j \<noteq> 0) True (Some ds) = Inl ?e"
    by (simp add: mkdir_target [OF r] RemarkableRESTRaw_mkdir_def del: mkdir.simps)
  show "mkdir (Suc n + j) dev fn' exists_ok' True (Some ds) = Inl ?e"
    by (rule mkdir_first_missing [where ok = "j = 0 \<and> exists_ok' \<or> j \<noteq> 0"])
       (use m nn a in auto)
next
  show "RemarkableRESTRaw_mkdir fn'' =
     Inl (RuntimeError
       (''mkdir: not implemented; please create the following folder on the remarkable: (''
        @ Path_str fn'' @ '')''))"
    by (simp add: RemarkableRESTRaw_mkdir_def)
qed


theorem mkdir_not_implemented_witness:
  "parent_resolves (Suc 0) example_device (Path ''A/Z'') False example_docs (Some ''1'') \<and>
   parent_resolves (Suc 0) example_device (Path ''A/Z'') True example_docs (Some ''1'') \<and>
   find_doc (Path_name (Path ''A/Z'')) (Some ''1'') example_docs = None \<and>
   mkdir (Suc (Suc 0)) example_device (Path ''A/Z'') False False (Some example_docs) =
     Inl (RuntimeError
       ''mkdir: not implemented; please create the following folder on the remarkable: (A/Z)'') \<and>
   mkdir (Suc (Suc 0)) example_device (Path ''A/Z'') False True (Some example_docs) =
     Inl (RuntimeError
       ''mkdir: not implemented; please create the following folder on the remarkable: (A/Z)'') \<and>
   parent_resolves 0 example_device (Path ''Q'') True example_docs None \<and>
   find_doc (Path_name (Path ''Q'')) None example_docs = None \<and>
   Path_names (Path ''Q'') \<noteq> [] \<and>
   Path ''Q'' = (Path_parent ^^ Suc (Suc 0)) (Path ''Q/R/S'') \<and>
   mkdir (Suc 0 + Suc (Suc 0)) example_device (Path ''Q/R/S'') False True (Some example_docs) =
     Inl (RuntimeError
       ''mkdir: not implemented; please create the following folder on the remarkable: (Q)'')"
proof -
  have p: "Path ''A/Z'' = PosixPath '''' [''A'', ''Z'']" "Path ''Q'' = PosixPath '''' [''Q'']"
    "Path ''Q/R/S'' = PosixPath '''' [''Q'', ''R'', ''S'']"
    by (simp_all add: path_eval)
  have r1: "parent_resolves (Suc 0) example_device (Path ''A/Z'') False example_docs (Some ''1'')"
    by (simp add: p parent_resolves_def Path_parent_def Path_dot example_find_A
          del: find_file.simps)
  have r2: "parent_resolves (Suc 0) example_device (Path ''A/Z'') True example_docs (Some ''1'')"
    by (simp add: p parent_resolves_def Path_parent_def Path_dot example_mkdir_A
          del: mkdir.simps)
  have f: "find_doc (Path_name (Path ''A/Z'')) (Some ''1'') example_docs = None"
    by (simp add: p Path_name_def find_doc_find strip_pdf_def endswith_def example_docs_def
          example_root_document_def)
  have r3: "parent_resolves 0 example_device (Path ''Q'') True example_docs None"
    by (simp add: p parent_resolves_def Path_parent_def Path_dot)
  have g: "find_doc (Path_name (Path ''Q'')) None example_docs = None"
    by (simp add: p Path_name_def find_doc_find strip_pdf_def endswith_def example_docs_def
          example_root_document_def)
  have n: "Path_names (Path ''Q'') \<noteq> []" by (simp add: p)
  have a: "Path ''Q'' = (Path_parent ^^ Suc (Suc 0)) (Path ''Q/R/S'')"
    by (simp add: p Path_parent_def)
  have s: "Path_str (Path ''A/Z'') = ''A/Z''" "Path_str (Path ''Q'') = ''Q''"
    by (simp_all add: p Path_str_def)
  from mkdir_not_implemented
    [of "Suc 0" example_device "Path ''A/Z''" False example_docs "Some ''1''" False
        "Path ''Q''" None "Suc (Suc 0)" "Path ''Q/R/S''" False "Path ''Q''"] r1 f s
  have 1: "mkdir (Suc (Suc 0)) example_device (Path ''A/Z'') False False (Some example_docs) =
     Inl (RuntimeError
       ''mkdir: not implemented; please create the following folder on the remarkable: (A/Z)'')"
    by (simp del: mkdir.simps)
  from mkdir_not_implemented
    [of "Suc 0" example_device "Path ''A/Z''" True example_docs "Some ''1''" False
        "Path ''Q''" None "Suc (Suc 0)" "Path ''Q/R/S''" False "Path ''Q''"] r2 f s
  have 2: "mkdir (Suc (Suc 0)) example_device (Path ''A/Z'') False True (Some example_docs) =
     Inl (RuntimeError
       ''mkdir: not implemented; please create the following folder on the remarkable: (A/Z)'')"
    by (simp del: mkdir.simps)
  from mkdir_not_implemented
    [of 0 example_device "Path ''Q''" True example_docs None False
        "Path ''Q''" None "Suc (Suc 0)" "Path ''Q/R/S''" False "Path ''Q''"] r3 g n a s
  have 3: "mkdir (Suc 0 + Suc (Suc 0)) example_device (Path ''Q/R/S'') False True
             (Some example_docs) =
     Inl (RuntimeError
       ''mkdir: not implemented; please create the following folder on the remarkable: (Q)'')"
    by (simp del: mkdir.simps funpow.simps)
  from r1 r2 f 1 2 r3 g n a 3 show ?thesis
    by (simp only: simp_thms)
qed

section \<open>\<^verbatim>\<open>mkdir\<close> on an existing Folder\<close>










section \<open>Order of the recursive listing\<close>

lemma folders_of_set: "f \<in> set (folders_of es) \<longleftrightarrow> Fld f \<in> set es"
  by (induction es rule: folders_of.induct) auto

lemma collect_subs_chunks:
  "collect_subs rec docs subs log = Inr (out, log') \<Longrightarrow>
     \<exists>chunks. out = subs @ concat chunks \<and>
       list_all2 (\<lambda>f c. \<exists>l. rec f = Inr (c, l)) (folders_of docs) chunks"
proof (induction rec docs subs log rule: collect_subs.induct)
  case (1 rec subs log)
  then show ?case by simp
next
  case (2 rec d rest subs log)
  then show ?case by simp
next
  case (3 rec f rest subs log)
  from "3.prems" obtain s l where r: "rec f = Inr (s, l)"
    and c: "collect_subs rec rest (subs @ s) (log @ l) = Inr (out, log')"
    by (auto split: sum.splits)
  from "3.IH" [OF r refl c] obtain chunks where
    "out = (subs @ s) @ concat chunks"
    "list_all2 (\<lambda>f c. \<exists>l. rec f = Inr (c, l)) (folders_of rest) chunks"
    by blast
  with r have "out = subs @ concat (s # chunks) \<and>
       list_all2 (\<lambda>f c. \<exists>l. rec f = Inr (c, l)) (folders_of (Fld f # rest)) (s # chunks)"
    by simp
  then show ?case by blast
qed

lemma parents_first_level:
  assumes "\<forall>e \<in> set xs. folder e = P"
  shows "parents_first P xs"
  unfolding parents_first_def
proof (intro allI impI)
  fix pre e post
  assume "xs = pre @ e # post"
  then have "e \<in> set xs" by simp
  with assms show "folder e = P \<or> (\<exists>f. folder e = Some f \<and> Fld f \<in> set pre)" by blast
qed

lemma parents_first_append:
  assumes "parents_first P xs" and "parents_first (Some f) c" and "Fld f \<in> set xs"
  shows "parents_first P (xs @ c)"
  unfolding parents_first_def
proof (intro allI impI)
  fix pre e post
  note 1 = assms(1) [unfolded parents_first_def, rule_format]
  note 2 = assms(2) [unfolded parents_first_def, rule_format]
  assume eq: "xs @ c = pre @ e # post"
  then obtain us where
    "xs = pre @ us \<and> us @ c = e # post \<or> xs @ us = pre \<and> c = us @ e # post"
    unfolding append_eq_append_conv2 by blast
  then show "folder e = P \<or> (\<exists>f. folder e = Some f \<and> Fld f \<in> set pre)"
  proof (elim disjE conjE)
    assume x: "xs = pre @ us" and u: "us @ c = e # post"
    show ?thesis
    proof (cases us)
      case Nil
      with u have "c = [] @ e # post" by simp
      from 2 [OF this] have "folder e = Some f" by simp
      moreover from x Nil assms(3) have "Fld f \<in> set pre" by simp
      ultimately show ?thesis by blast
    next
      case (Cons u' us')
      with u x have "xs = pre @ e # us'" by simp
      from 1 [OF this] show ?thesis .
    qed
  next
    assume x: "xs @ us = pre" and u: "c = us @ e # post"
    from 2 [OF u] have "folder e = Some f \<or> (\<exists>g. folder e = Some g \<and> Fld g \<in> set us)" .
    then show ?thesis
    proof
      assume "folder e = Some f"
      moreover from x assms(3) have "Fld f \<in> set pre" by auto
      ultimately show ?thesis by blast
    next
      assume "\<exists>g. folder e = Some g \<and> Fld g \<in> set us"
      then obtain g where "folder e = Some g" "Fld g \<in> set us" by blast
      moreover with x have "Fld g \<in> set pre" by auto
      ultimately show ?thesis by blast
    qed
  qed
qed

lemma parents_first_concat:
  assumes "list_all2 R fs chunks"
    and "\<And>f c. R f c \<Longrightarrow> parents_first (Some f) c"
    and "\<forall>f \<in> set fs. Fld f \<in> set base"
    and "parents_first P base"
  shows "parents_first P (base @ concat chunks)"
  using assms(1,3,4)
proof (induction fs chunks arbitrary: base rule: list_all2_induct)
  case Nil
  then show ?case by simp
next
  case (Cons f fs c cs)
  from Cons.hyps(1) have 1: "parents_first (Some f) c" by (rule assms(2))
  from Cons.prems(1) have 2: "Fld f \<in> set base" by simp
  from Cons.prems(2) 1 2 have "parents_first P (base @ c)"
    by (rule parents_first_append)
  moreover from Cons.prems have "\<forall>f \<in> set fs. Fld f \<in> set (base @ c)" by simp
  ultimately have "parents_first P ((base @ c) @ concat cs)" by (intro Cons.IH)
  then show ?case by simp
qed

lemma get_documents_unfold:
  assumes "get_documents (Suc n) dev folder_id retries True parent = Inr (out, log)"
  shows "\<exists>raws lvl l0 chunks.
           read_folder dev folder_id retries = Inr raws \<and>
           parse_records parent raws [] [] = Inr (lvl, l0) \<and>
           out = lvl @ concat chunks \<and>
           list_all2 (\<lambda>f c. \<exists>l. get_documents n dev (Some (Folder_id f)) retries True (Some f)
                               = Inr (c, l)) (folders_of lvl) chunks"
proof -
  from assms obtain raws lvl l0 subs where
    r: "read_folder dev folder_id retries = Inr raws"
    and p: "parse_records parent raws [] [] = Inr (lvl, l0)"
    and c: "collect_subs
              (\<lambda>doc. get_documents n dev (Some (Folder_id doc)) retries True (Some doc))
              lvl [] l0 = Inr (subs, log)"
    and o: "out = lvl @ subs"
    by (auto split: sum.splits)
  from collect_subs_chunks [OF c] o r p show ?thesis by auto
qed

lemma get_documents_parents_first:
  "get_documents n dev folder_id retries True parent = Inr (out, log) \<Longrightarrow>
     parents_first parent out"
proof (induction n arbitrary: folder_id parent out log)
  case 0
  then show ?case by simp
next
  case (Suc n)
  from get_documents_unfold [OF Suc.prems] obtain raws lvl l0 chunks where
    p: "parse_records parent raws [] [] = Inr (lvl, l0)"
    and o: "out = lvl @ concat chunks"
    and c: "list_all2 (\<lambda>f c. \<exists>l. get_documents n dev (Some (Folder_id f)) retries True (Some f)
                               = Inr (c, l)) (folders_of lvl) chunks"
    by blast
  from parse_records_prefix [OF p] have "parents_first parent lvl"
    by (intro parents_first_level) simp
  moreover have "\<forall>f \<in> set (folders_of lvl). Fld f \<in> set lvl"
    by (simp add: folders_of_set)
  moreover have "\<And>f c. \<exists>l. get_documents n dev (Some (Folder_id f)) retries True (Some f)
                               = Inr (c, l) \<Longrightarrow> parents_first (Some f) c"
    using Suc.IH by blast
  ultimately have "parents_first parent (lvl @ concat chunks)"
    using c by (intro parents_first_concat [where fs = "folders_of lvl" and R =
      "\<lambda>f c. \<exists>l. get_documents n dev (Some (Folder_id f)) retries True (Some f)
                               = Inr (c, l)"])
  with o show ?case by simp
qed


lemma Folder_chain_ancestors: "Folder_chain f = f # ancestors (Fld f)"
  by (cases f) (simp add: ancestors_def)

lemma parents_first_nth:
  assumes "parents_first None out" and "j < length out" and "folder (out ! j) = Some f"
  shows "\<exists>i<j. out ! i = Fld f"
proof -
  from assms(2) have "out = take j out @ out ! j # drop (Suc j) out"
    by (simp add: id_take_nth_drop)
  from assms(1) [unfolded parents_first_def, rule_format, OF this] assms(3)
  have "Fld f \<in> set (take j out)" by simp
  then obtain i where "i < length (take j out)" "take j out ! i = Fld f"
    unfolding in_set_conv_nth by blast
  then have "i < j \<and> out ! i = Fld f" by simp
  then show ?thesis by blast
qed

lemma ancestors_precede:
  assumes "parents_first None out"
  shows "j < length out \<Longrightarrow> F \<in> set (ancestors (out ! j)) \<Longrightarrow> \<exists>i<j. out ! i = Fld F"
proof (induction j rule: less_induct)
  case (less j)
  from less.prems(2) obtain f where f: "folder (out ! j) = Some f" and F: "F \<in> set (Folder_chain f)"
    by (cases "folder (out ! j)") (auto simp: ancestors_def)
  from parents_first_nth [OF assms less.prems(1) f] obtain i where i: "i < j" "out ! i = Fld f"
    by blast
  from F have "F = f \<or> F \<in> set (ancestors (Fld f))"
    by (simp add: Folder_chain_ancestors)
  then show ?case
  proof
    assume "F = f"
    with i show ?thesis by blast
  next
    assume "F \<in> set (ancestors (Fld f))"
    with i have "F \<in> set (ancestors (out ! i))" by simp
    moreover from i less.prems(1) have "i < length out" by simp
    ultimately obtain k where "k < i" "out ! k = Fld F"
      using less.IH [OF i(1)] by blast
    with i(1) have "k < j \<and> out ! k = Fld F" by simp
    then show ?thesis by blast
  qed
qed

text \<open>
  C4. In the list returned by the recursive listing from the root, every entity comes
  after each Folder of its chain of parent Folders; where the list has no duplicate
  entry, a Folder therefore stands before every entity of its subtree. Every call of
  \<^verbatim>\<open>get_documents\<close>, at the root or nested, returns first the entities of the level
  it fetched, in the order of the accepted raw records, and after them, Folder by
  Folder in that order, the lists of the nested calls.
\<close>

theorem get_documents_order:
  "(get_documents n dev folder_id retries True None = Inr (out, log) \<longrightarrow>
      (\<forall>j<length out. \<forall>F \<in> set (ancestors (out ! j)). \<exists>i<j. out ! i = Fld F) \<and>
      (distinct out \<longrightarrow>
         (\<forall>i j F. i < length out \<and> j < length out \<and> out ! i = Fld F \<and>
                  F \<in> set (ancestors (out ! j)) \<longrightarrow> i < j))) \<and>
   (get_documents (Suc n') dev' folder_id' retries' True parent = Inr (out', log') \<and>
    read_folder dev' folder_id' retries' = Inr raws \<longrightarrow>
      (\<exists>lvl chunks. out' = lvl @ concat chunks \<and>
         map raw_of lvl = filter known_type raws \<and>
         (\<forall>e \<in> set lvl. folder e = parent) \<and>
         list_all2
           (\<lambda>f c. \<exists>l. get_documents n' dev' (Some (Folder_id f)) retries' True (Some f)
                         = Inr (c, l))
           (folders_of lvl) chunks))"
proof (intro conjI impI)
  assume g: "get_documents n dev folder_id retries True None = Inr (out, log)"
  from get_documents_parents_first [OF g] have pf: "parents_first None out" .
  show 1: "\<forall>j<length out. \<forall>F \<in> set (ancestors (out ! j)). \<exists>i<j. out ! i = Fld F"
    using ancestors_precede [OF pf] by blast
  show "\<forall>i j F. i < length out \<and> j < length out \<and> out ! i = Fld F \<and>
                  F \<in> set (ancestors (out ! j)) \<longrightarrow> i < j" if d: "distinct out"
  proof (intro allI impI, elim conjE)
    fix i j F
    assume i: "i < length out" and j: "j < length out" and F: "out ! i = Fld F"
      and a: "F \<in> set (ancestors (out ! j))"
    from ancestors_precede [OF pf j a] obtain k where k: "k < j" "out ! k = Fld F" by blast
    with j have kl: "k < length out" by simp
    from F k(2) have "out ! k = out ! i" by simp
    with nth_eq_iff_index_eq [OF d kl i] have "k = i" by simp
    with k(1) show "i < j" by simp
  qed
next
  assume "get_documents (Suc n') dev' folder_id' retries' True parent = Inr (out', log') \<and>
    read_folder dev' folder_id' retries' = Inr raws"
  then have g: "get_documents (Suc n') dev' folder_id' retries' True parent = Inr (out', log')"
    and r: "read_folder dev' folder_id' retries' = Inr raws" by (rule conjunct1, rule conjunct2)
  from get_documents_unfold [OF g] r obtain lvl l0 chunks where
    p: "parse_records parent raws [] [] = Inr (lvl, l0)"
    and o: "out' = lvl @ concat chunks"
    and c: "list_all2 (\<lambda>f c. \<exists>l. get_documents n' dev' (Some (Folder_id f)) retries' True (Some f)
                               = Inr (c, l)) (folders_of lvl) chunks"
    by auto
  from parse_records_raws [OF p] have m: "map raw_of lvl = filter known_type raws" by simp
  from parse_records_prefix [OF p] have f: "\<forall>e \<in> set lvl. folder e = parent" by simp
  from o m f c show "\<exists>lvl chunks. out' = lvl @ concat chunks \<and>
         map raw_of lvl = filter known_type raws \<and>
         (\<forall>e \<in> set lvl. folder e = parent) \<and>
         list_all2
           (\<lambda>f c. \<exists>l. get_documents n' dev' (Some (Folder_id f)) retries' True (Some f)
                         = Inr (c, l))
           (folders_of lvl) chunks"
    by blast
qed

lemma example_get_documents_1:
  "get_documents (Suc 0) example_device (Some ''1'') 3 True
     (Some (Folder ''1'' None ''A'' None example_folder_record)) =
   Inr ([Doc (Document ''2'' (Some (Folder ''1'' None ''A'' None example_folder_record))
             ''B'' 10 ''pdf'' 1 (Some ''1'') example_document_record)], [])"
  by (simp add: read_folder_snapshot example_device_def example_document_record_def py_int_10)

lemma example_get_documents:
  "get_documents (Suc (Suc 0)) example_device None 3 True None =
     Inr ([Fld (Folder ''1'' None ''A'' None example_folder_record),
           Doc (Document ''2'' (Some (Folder ''1'' None ''A'' None example_folder_record))
             ''B'' 10 ''pdf'' 1 (Some ''1'') example_document_record)],
          [''skipping C/TemplateType''])"
proof -
  have r: "read_folder example_device None 3 = Inr [example_folder_record, example_other_record]"
    by (simp add: read_folder_snapshot example_device_def)
  have p: "parse_records None [example_folder_record, example_other_record] [] [] =
     Inr ([Fld (Folder ''1'' None ''A'' None example_folder_record)],
          [''skipping C/TemplateType''])"
    by (simp add: example_folder_record_def example_other_record_def)
  show ?thesis
    by (subst get_documents.simps(2))
       (simp only: r p sum.case prod.case if_True collect_subs.simps Folder.sel
          example_get_documents_1 append.simps append_Nil2)
qed

theorem get_documents_order_witness:
  "get_documents (Suc (Suc 0)) example_device None 3 True None =
     Inr ([Fld (Folder ''1'' None ''A'' None example_folder_record),
           Doc (Document ''2'' (Some (Folder ''1'' None ''A'' None example_folder_record))
             ''B'' 10 ''pdf'' 1 (Some ''1'') example_document_record)],
          [''skipping C/TemplateType'']) \<and>
   read_folder example_device None 3 = Inr [example_folder_record, example_other_record] \<and>
   Folder ''1'' None ''A'' None example_folder_record \<in>
     set (ancestors (Doc (Document ''2'' (Some (Folder ''1'' None ''A'' None example_folder_record))
             ''B'' 10 ''pdf'' 1 (Some ''1'') example_document_record))) \<and>
   (\<exists>i<Suc 0.
      [Fld (Folder ''1'' None ''A'' None example_folder_record),
       Doc (Document ''2'' (Some (Folder ''1'' None ''A'' None example_folder_record))
             ''B'' 10 ''pdf'' 1 (Some ''1'') example_document_record)] ! i =
      Fld (Folder ''1'' None ''A'' None example_folder_record)) \<and>
   (\<exists>lvl chunks.
      [Fld (Folder ''1'' None ''A'' None example_folder_record),
       Doc (Document ''2'' (Some (Folder ''1'' None ''A'' None example_folder_record))
             ''B'' 10 ''pdf'' 1 (Some ''1'') example_document_record)] = lvl @ concat chunks \<and>
      map raw_of lvl = [example_folder_record])"
proof -
  let ?A = "Folder ''1'' None ''A'' None example_folder_record"
  let ?B = "Document ''2'' (Some ?A) ''B'' 10 ''pdf'' 1 (Some ''1'') example_document_record"
  have r: "read_folder example_device None 3 = Inr [example_folder_record, example_other_record]"
    by (simp add: read_folder_snapshot example_device_def)
  have a: "?A \<in> set (ancestors (Doc ?B))"
    by (simp add: ancestors_def)
  note t = get_documents_order
    [of "Suc (Suc 0)" example_device None 3 "[Fld ?A, Doc ?B]" "[''skipping C/TemplateType'']"
        "Suc 0" example_device None 3 None "[Fld ?A, Doc ?B]" "[''skipping C/TemplateType'']"
        "[example_folder_record, example_other_record]"]
  from t example_get_documents
  have "\<forall>j<length [Fld ?A, Doc ?B]. \<forall>F \<in> set (ancestors ([Fld ?A, Doc ?B] ! j)).
          \<exists>i<j. [Fld ?A, Doc ?B] ! i = Fld F"
    by blast
  from this [rule_format, of "Suc 0" ?A] a
  have 1: "\<exists>i<Suc 0. [Fld ?A, Doc ?B] ! i = Fld ?A" by simp
  from t example_get_documents r
  obtain lvl chunks where "[Fld ?A, Doc ?B] = lvl @ concat chunks"
    "map raw_of lvl = filter known_type [example_folder_record, example_other_record]"
    by blast
  moreover have "filter known_type [example_folder_record, example_other_record] =
      [example_folder_record]"
    by (simp add: known_type_def example_folder_record_def example_other_record_def)
  ultimately have 2: "\<exists>lvl chunks. [Fld ?A, Doc ?B] = lvl @ concat chunks \<and>
      map raw_of lvl = [example_folder_record]"
    by auto
  from example_get_documents r a 1 2 show ?thesis by (simp only: simp_thms)
qed

section \<open>Path construction and resolution\<close>

lemma Path_div_plain:
  assumes "Path_root p = ''''" and "CHR ''/'' \<notin> set s" and "s \<noteq> ''''" and "s \<noteq> ''.''"
  shows "Path_div p s = PosixPath '''' (Path_names p @ [s])"
  using assms by (simp add: Path_div_def Path_plain)

lemma find_file_child:
  assumes "find_file m dev (PosixPath '''' ns) (Some ds) = Inr (Some g)" and "ns \<noteq> []"
  shows "find_file (Suc m) dev (PosixPath '''' (ns @ [s])) (Some ds) =
           Inr (find_doc s (Some (id_of g)) ds)"
proof -
  have "Path_parent (PosixPath '''' (ns @ [s])) = PosixPath '''' ns"
    by (simp add: Path_parent_def)
  moreover from assms(2) have "PosixPath '''' ns \<noteq> Path ''.''" by (simp add: Path_dot)
  moreover have "Path_name (PosixPath '''' (ns @ [s])) = s" by (simp add: Path_name_def)
  ultimately show ?thesis using assms(1)
    by (subst find_file.simps(2)) (simp del: find_file.simps)
qed

lemma resolvable_find_doc:
  assumes "resolvable docs x" and "strip_pdf s = visible_name x"
  shows "find_doc s (parent_id x) docs = Some x"
proof -
  from assms(1)
  have "List.find (\<lambda>y. visible_name y = visible_name x \<and> parent_id y = parent_id x) docs = Some x"
    unfolding resolvable_def by blast
  with assms(2) show ?thesis by (simp only: find_doc_find)
qed

lemma Folder_filename_resolves:
  "\<forall>g \<in> set (Folder_chain f). resolvable docs (Fld g) \<Longrightarrow>
   (\<exists>ns. Folder_filename f = PosixPath '''' ns \<and> ns \<noteq> [] \<and> length ns = length (Folder_chain f) \<and>
      (\<forall>m \<ge> length ns. find_file m dev (PosixPath '''' ns) (Some docs) = Inr (Some (Fld f))))"
proof (induction f)
  case (Folder i fo vn pid r)
  let ?f = "Folder i fo vn pid r"
  from Folder.prems have rf: "resolvable docs (Fld ?f)" by simp
  then have plain: "CHR ''/'' \<notin> set vn" "vn \<noteq> ''''" "vn \<noteq> ''.''" "\<not> endswith vn ''.pdf''"
    and pid: "pid = map_option Folder_id fo"
    by (simp_all add: resolvable_def)
  from plain(4) have sp: "strip_pdf vn = visible_name (Fld ?f)" by (simp add: strip_pdf_plain)
  from resolvable_find_doc [OF rf sp] have fd: "find_doc vn pid docs = Some (Fld ?f)" by simp
  show ?case
  proof (cases fo)
    case None
    with plain have fn: "Folder_filename ?f = PosixPath '''' [vn]" by (simp add: Path_plain)
    have "\<forall>m \<ge> length [vn]. find_file m dev (PosixPath '''' [vn]) (Some docs) = Inr (Some (Fld ?f))"
    proof (intro allI impI)
      fix m assume "length [vn] \<le> m"
      then obtain k where "m = Suc k" by (cases m) simp_all
      with fd pid None show "find_file m dev (PosixPath '''' [vn]) (Some docs) = Inr (Some (Fld ?f))"
        by (simp add: find_file_single del: find_file.simps)
    qed
    with fn None show ?thesis by simp
  next
    case (Some g)
    with Folder.prems have "\<forall>h \<in> set (Folder_chain g). resolvable docs (Fld h)" by simp
    moreover from Some have "g \<in> set_option fo" by simp
    ultimately have "\<exists>ns. Folder_filename g = PosixPath '''' ns \<and> ns \<noteq> [] \<and>
      length ns = length (Folder_chain g) \<and>
      (\<forall>m \<ge> length ns. find_file m dev (PosixPath '''' ns) (Some docs) = Inr (Some (Fld g)))"
      by (rule Folder.IH [rotated])
    then obtain ns where
      g: "Folder_filename g = PosixPath '''' ns" "ns \<noteq> []" "length ns = length (Folder_chain g)"
      and ff: "\<forall>m \<ge> length ns. find_file m dev (PosixPath '''' ns) (Some docs) = Inr (Some (Fld g))"
      by auto
    from Some g(1) plain have fn: "Folder_filename ?f = PosixPath '''' (ns @ [vn])"
      by (simp add: Path_div_plain)
    have "\<forall>m \<ge> length (ns @ [vn]).
            find_file m dev (PosixPath '''' (ns @ [vn])) (Some docs) = Inr (Some (Fld ?f))"
    proof (intro allI impI)
      fix m assume "length (ns @ [vn]) \<le> m"
      then obtain k where k: "m = Suc k" "length ns \<le> k" by (cases m) simp_all
      with ff have "find_file k dev (PosixPath '''' ns) (Some docs) = Inr (Some (Fld g))" by blast
      from find_file_child [OF this g(2), of vn] k(1) fd pid Some
      show "find_file m dev (PosixPath '''' (ns @ [vn])) (Some docs) = Inr (Some (Fld ?f))"
        by (simp del: find_file.simps)
    qed
    with fn g Some show ?thesis by simp
  qed
qed


lemma parse_records_extension:
  "parse_records parent raws acc log = Inr (out, log') \<Longrightarrow> Doc d \<in> set out \<Longrightarrow>
     Doc d \<in> set acc \<or> Document_extension d = ''pdf''"
proof (induction raws arbitrary: acc log)
  case Nil
  then show ?case by simp
next
  case (Cons raw raws)
  from Cons.prems(1) consider
    (doc) pc len where
      "parse_records parent raws
         (acc @ [Doc (Document (ID raw) parent (VissibleName raw) len ''pdf'' pc
                   (if Parent raw \<noteq> '''' then Some (Parent raw) else None) raw)]) log
       = Inr (out, log')"
  | (fld) "parse_records parent raws
         (acc @ [Fld (Folder (ID raw) parent (VissibleName raw)
                   (if Parent raw \<noteq> '''' then Some (Parent raw) else None) raw)]) log
       = Inr (out, log')"
  | (skip) l where "parse_records parent raws acc l = Inr (out, log')"
    by (auto split: if_splits option.splits)
  then show ?case
  proof cases
    case doc
    from Cons.IH [OF doc Cons.prems(2)] show ?thesis by auto
  next
    case fld
    from Cons.IH [OF fld Cons.prems(2)] show ?thesis by auto
  next
    case skip
    from Cons.IH [OF skip Cons.prems(2)] show ?thesis .
  qed
qed

lemma get_documents_extension:
  "get_documents n dev folder_id retries True parent = Inr (out, log) \<Longrightarrow>
     Doc d \<in> set out \<Longrightarrow> Document_extension d = ''pdf''"
proof (induction n arbitrary: folder_id parent out log)
  case 0
  then show ?case by simp
next
  case (Suc n)
  from get_documents_unfold [OF Suc.prems(1)] obtain raws lvl l0 chunks where
    p: "parse_records parent raws [] [] = Inr (lvl, l0)"
    and o: "out = lvl @ concat chunks"
    and c: "list_all2 (\<lambda>f c. \<exists>l. get_documents n dev (Some (Folder_id f)) retries True (Some f)
                               = Inr (c, l)) (folders_of lvl) chunks"
    by blast
  from Suc.prems(2) o consider "Doc d \<in> set lvl" | c' where "c' \<in> set chunks" "Doc d \<in> set c'"
    by auto
  then show ?case
  proof cases
    case 1
    from parse_records_extension [OF p 1] show ?thesis by simp
  next
    case 2
    from 2(1) obtain k where k: "k < length chunks" "chunks ! k = c'"
      unfolding in_set_conv_nth by blast
    from list_all2_nthD2 [OF c k(1)] k(2) obtain l where
      "get_documents n dev (Some (Folder_id (folders_of lvl ! k))) retries True
         (Some (folders_of lvl ! k)) = Inr (c', l)"
      by blast
    from Suc.IH [OF this 2(2)] show ?thesis .
  qed
qed

lemma example_pdf_folder_not_found:
  "get_documents (Suc (Suc 0)) example_pdf_device None 3 True None =
     Inr ([Fld example_pdf_folder], []) \<and>
   filename (Fld example_pdf_folder) = PosixPath '''' [''X.pdf''] \<and>
   find_file (Suc 0) example_pdf_device (filename (Fld example_pdf_folder))
     (Some [Fld example_pdf_folder]) = Inr None \<and>
   find_file (Suc (Suc 0)) example_pdf_device (filename (Fld example_pdf_folder))
     (Some [Fld example_pdf_folder]) = Inr None"
proof -
  have r: "read_folder example_pdf_device None 3 = Inr [Folder_raw example_pdf_folder]"
    "read_folder example_pdf_device (Some ''6'') 3 = Inr []"
    by (simp_all add: read_folder_snapshot example_pdf_device_def)
  have p: "parse_records None [Folder_raw example_pdf_folder] [] [] =
             Inr ([Fld example_pdf_folder], [])"
    by (simp add: example_pdf_folder_def)
  have i: "Folder_id example_pdf_folder = ''6''" by (simp add: example_pdf_folder_def)
  have 0: "get_documents (Suc 0) example_pdf_device (Some ''6'') 3 True (Some example_pdf_folder)
             = Inr ([], [])"
    by (simp add: r)
  have 1: "get_documents (Suc (Suc 0)) example_pdf_device None 3 True None =
     Inr ([Fld example_pdf_folder], [])"
    by (subst get_documents.simps(2))
       (simp only: r p i 0 sum.case prod.case if_True collect_subs.simps append.simps append_Nil2)
  have 2: "filename (Fld example_pdf_folder) = PosixPath '''' [''X.pdf'']"
    by (simp add: example_pdf_folder_def Path_plain)
  have 3: "find_doc ''X.pdf'' None [Fld example_pdf_folder] = None"
    by (simp add: find_doc_find strip_pdf_def endswith_def example_pdf_folder_def)
  from 1 2 3 show ?thesis
    by (simp add: find_file_single del: find_file.simps get_documents.simps
          add: find_file_single [of 0, simplified] find_file_single [of "Suc 0"])
qed

lemma py_int_20: "py_int ''20'' = Some 20"
  by (simp add: py_int_def strip_def is_space_def digit_val_def)

lemma example_twin_not_found:
  "get_documents (Suc 0) example_twin_device None 3 True None =
     Inr ([Doc example_root_document, Doc example_twin_document], []) \<and>
   find_file (Suc 0) example_twin_device (filename (Doc example_twin_document))
     (Some [Doc example_root_document, Doc example_twin_document]) =
     Inr (Some (Doc example_root_document)) \<and>
   Doc example_root_document \<noteq> Doc example_twin_document"
proof -
  have r: "read_folder example_twin_device None 3 =
      Inr [Document_raw example_root_document, Document_raw example_twin_document]"
    by (simp add: read_folder_snapshot example_twin_device_def)
  have p: "parse_records None
      [Document_raw example_root_document, Document_raw example_twin_document] [] [] =
      Inr ([Doc example_root_document, Doc example_twin_document], [])"
    by (simp add: example_root_document_def example_twin_document_def py_int_10 py_int_20)
  have 1: "get_documents (Suc 0) example_twin_device None 3 True None =
     Inr ([Doc example_root_document, Doc example_twin_document], [])"
    by (subst get_documents.simps(2))
       (simp only: r p sum.case prod.case if_True collect_subs.simps append.simps append_Nil2)
  have f: "filename (Doc example_twin_document) = PosixPath '''' [''a'']"
    by (simp add: example_twin_document_def Document_filename_def Path_plain)
  have 2: "find_doc ''a'' None [Doc example_root_document, Doc example_twin_document] =
      Some (Doc example_root_document)"
    by (simp add: find_doc_find strip_pdf_def endswith_def example_root_document_def
          example_twin_document_def)
  have 3: "Doc example_root_document \<noteq> Doc example_twin_document"
    by (simp add: example_root_document_def example_twin_document_def)
  from 1 2 3 show ?thesis
    unfolding f find_file_single by (simp only: simp_thms)
qed

text \<open>
  C1. The root listing with the single Folder \<open>X.pdf\<close> yields the list holding that
  Folder alone; its \<^verbatim>\<open>filename\<close> is the path \<open>X.pdf\<close>, and \<^verbatim>\<open>find_file\<close> on it
  returns none, since the name is stripped to \<open>X\<close> before the comparison. And the
  root listing with two Documents named \<open>a\<close> yields both, but \<^verbatim>\<open>find_file\<close> on
  the \<^verbatim>\<open>filename\<close> of the second returns the first.
\<close>

theorem find_file_filename_counterexample:
  "get_documents (Suc (Suc 0)) example_pdf_device None 3 True None =
     Inr ([Fld example_pdf_folder], []) \<and>
   filename (Fld example_pdf_folder) = PosixPath '''' [''X.pdf''] \<and>
   find_file (Suc 0) example_pdf_device (filename (Fld example_pdf_folder))
     (Some [Fld example_pdf_folder]) = Inr None \<and>
   find_file (Suc (Suc 0)) example_pdf_device (filename (Fld example_pdf_folder))
     (Some [Fld example_pdf_folder]) = Inr None \<and>
   get_documents (Suc 0) example_twin_device None 3 True None =
     Inr ([Doc example_root_document, Doc example_twin_document], []) \<and>
   find_file (Suc 0) example_twin_device (filename (Doc example_twin_document))
     (Some [Doc example_root_document, Doc example_twin_document]) =
     Inr (Some (Doc example_root_document)) \<and>
   Doc example_root_document \<noteq> Doc example_twin_document"
  using example_pdf_folder_not_found example_twin_not_found by blast

text \<open>
  C1, amended. Let \<open>docs\<close> be the list of the recursive listing from the root and
  \<open>e\<close> one of its entities such that \<open>e\<close> and every Folder of its parent chain
  (i) is the first entry of \<open>docs\<close> with its display name and parent identifier,
  (ii) has as parent identifier the identifier of its parent Folder (none at the root),
  (iii) has a display name without \<open>/\<close>, and, for a Folder or a root Document, a
  display name that is not empty, not \<open>.\<close> and does not end in \<open>.pdf\<close>. Then
  \<^verbatim>\<open>find_file(e.filename, docs=docs)\<close> returns \<open>e\<close>, as soon as the recursion budget
  covers the number of path segments.
\<close>

theorem find_file_filename:
  assumes "get_documents n dev None retries True None = Inr (docs, log)"
    and "e \<in> set docs"
    and "\<forall>x \<in> set (e # map Fld (ancestors e)). resolvable docs x"
    and "length (Path_names (filename e)) \<le> m"
  shows "find_file m dev' (filename e) (Some docs) = Inr (Some e)"
proof (cases e)
  case (Fld f)
  with assms(3) have "\<forall>g \<in> set (Folder_chain f). resolvable docs (Fld g)"
    by (simp add: Folder_chain_ancestors)
  from Folder_filename_resolves [OF this, of dev'] obtain ns where
    "Folder_filename f = PosixPath '''' ns"
    "\<forall>m \<ge> length ns. find_file m dev' (PosixPath '''' ns) (Some docs) = Inr (Some (Fld f))"
    by blast
  with assms(4) Fld show ?thesis by simp
next
  case (Doc d)
  from assms(3) Doc have rd: "resolvable docs (Doc d)" by simp
  then have slash: "CHR ''/'' \<notin> set (Document_visible_name d)"
    and pid: "Document_parent_id d = map_option Folder_id (Document_folder d)"
    by (simp_all add: resolvable_def)
  from assms(1,2) Doc have ext: "Document_extension d = ''pdf''"
    by (auto dest: get_documents_extension)
  show ?thesis
  proof (cases "Document_folder d")
    case None
    with rd have plain: "Document_visible_name d \<noteq> ''''" "Document_visible_name d \<noteq> ''.''"
      "\<not> endswith (Document_visible_name d) ''.pdf''"
      by (simp_all add: resolvable_def)
    from plain(3) have "strip_pdf (Document_visible_name d) = visible_name (Doc d)"
      by (simp add: strip_pdf_plain)
    from resolvable_find_doc [OF rd this] pid None
    have fd: "find_doc (Document_visible_name d) None docs = Some (Doc d)" by simp
    from None slash plain have fn: "filename e = PosixPath '''' [Document_visible_name d]"
      by (simp add: Doc Document_filename_def Path_plain)
    with assms(4) obtain k where "m = Suc k" by (cases m) simp_all
    with fn fd Doc show ?thesis by (simp add: find_file_single del: find_file.simps)
  next
    case (Some g)
    with assms(3) Doc have "\<forall>h \<in> set (Folder_chain g). resolvable docs (Fld h)"
      by (simp add: ancestors_def)
    from Folder_filename_resolves [OF this, of dev'] obtain ns where
      g: "Folder_filename g = PosixPath '''' ns" "ns \<noteq> []"
      and ff: "\<forall>m \<ge> length ns. find_file m dev' (PosixPath '''' ns) (Some docs) = Inr (Some (Fld g))"
      by blast
    let ?s = "Document_visible_name d @ ''.pdf''"
    from slash have "CHR ''/'' \<notin> set ?s" "?s \<noteq> ''''" "?s \<noteq> ''.''" by simp_all
    with g(1) have "Path_div (Folder_filename g) ?s = PosixPath '''' (ns @ [?s])"
      by (simp add: Path_div_plain)
    with Some ext have fn: "filename e = PosixPath '''' (ns @ [?s])"
      by (simp add: Doc Document_filename_def)
    with assms(4) obtain k where k: "m = Suc k" "length ns \<le> k" by (cases m) simp_all
    with ff have "find_file k dev' (PosixPath '''' ns) (Some docs) = Inr (Some (Fld g))" by blast
    from find_file_child [OF this g(2), of ?s]
    have "find_file m dev' (filename e) (Some docs) = Inr (find_doc ?s (Some (Folder_id g)) docs)"
      by (simp add: fn k(1) del: find_file.simps)
    moreover have "strip_pdf ?s = visible_name (Doc d)" by (simp add: strip_pdf_append)
    from resolvable_find_doc [OF rd this] pid Some
    have "find_doc ?s (Some (Folder_id g)) docs = Some (Doc d)" by simp
    ultimately show ?thesis using Doc by simp
  qed
qed

theorem find_file_filename_witness:
  "get_documents (Suc (Suc 0)) example_device None 3 True None =
     Inr ([Fld (Folder ''1'' None ''A'' None example_folder_record),
           Doc (Document ''2'' (Some (Folder ''1'' None ''A'' None example_folder_record))
             ''B'' 10 ''pdf'' 1 (Some ''1'') example_document_record)],
          [''skipping C/TemplateType'']) \<and>
   filename (Doc (Document ''2'' (Some (Folder ''1'' None ''A'' None example_folder_record))
             ''B'' 10 ''pdf'' 1 (Some ''1'') example_document_record)) =
     PosixPath '''' [''A'', ''B.pdf''] \<and>
   find_file (Suc (Suc 0)) example_device
     (filename (Doc (Document ''2'' (Some (Folder ''1'' None ''A'' None example_folder_record))
             ''B'' 10 ''pdf'' 1 (Some ''1'') example_document_record)))
     (Some [Fld (Folder ''1'' None ''A'' None example_folder_record),
           Doc (Document ''2'' (Some (Folder ''1'' None ''A'' None example_folder_record))
             ''B'' 10 ''pdf'' 1 (Some ''1'') example_document_record)]) =
     Inr (Some (Doc (Document ''2'' (Some (Folder ''1'' None ''A'' None example_folder_record))
             ''B'' 10 ''pdf'' 1 (Some ''1'') example_document_record)))"
proof -
  let ?A = "Folder ''1'' None ''A'' None example_folder_record"
  let ?B = "Document ''2'' (Some ?A) ''B'' 10 ''pdf'' 1 (Some ''1'') example_document_record"
  have fn: "filename (Doc ?B) = PosixPath '''' [''A'', ''B.pdf'']"
    by (simp add: Document_filename_def Path_plain Path_div_plain)
  have a: "ancestors (Doc ?B) = [?A]" by (simp add: ancestors_def)
  have rA: "resolvable [Fld ?A, Doc ?B] (Fld ?A)"
    by (simp add: resolvable_def endswith_def)
  have rB: "resolvable [Fld ?A, Doc ?B] (Doc ?B)"
    by (simp add: resolvable_def endswith_def)
  from rA rB a have r: "\<forall>x \<in> set (Doc ?B # map Fld (ancestors (Doc ?B))).
      resolvable [Fld ?A, Doc ?B] x"
    by simp
  have l: "length (Path_names (filename (Doc ?B))) \<le> Suc (Suc 0)" unfolding fn by simp
  have m: "Doc ?B \<in> set [Fld ?A, Doc ?B]" by simp
  from find_file_filename [OF example_get_documents m r l, of example_device]
       example_get_documents fn
  show ?thesis by (simp only: simp_thms)
qed

end
